theory Spec2Isabelle
  imports Complex_Main
begin

section \<open>Data model\<close>

text \<open>
  The two variants of the navigator (\<^verbatim>\<open>iphone_gps_api.py\<close>, the phone variant, and
  \<^verbatim>\<open>gps_api.py\<close>, the laptop variant) work on the step dictionaries of the directions
  provider. A coordinate is a pair (latitude, longitude) in degrees. The values of Python
  floats are real numbers; the bearing resolver models the rounding of double arithmetic,
  the distance formula is taken on exact reals. A step dictionary is a record of the four
  keys the code reads.
\<close>

type_synonym coord = "real \<times> real"

record step =
  html_instructions :: string
  distance_text :: string
  start_location :: coord
  end_location :: coord

text \<open>The exceptions the modelled code can raise.\<close>

datatype py_error = IndexError | KeyError | TypeError | ValueError | AttributeError

section \<open>Bearing resolver (phone variant)\<close>

text \<open>The dictionary \<^verbatim>\<open>self.cardinal_directions\<close> of \<^verbatim>\<open>GPS_Navigator.__init__\<close>.\<close>

definition cardinal_directions :: "(string \<times> int) list" where
  "cardinal_directions =
     [(''north'', 0), (''northeast'', 45), (''east'', 90), (''southeast'', 135),
      (''south'', 180), (''southwest'', 225), (''west'', 270), (''northwest'', 315)]"

text \<open>
  Double-precision arithmetic. A double is a real number with a significand of 53 bits;
  addition and subtraction return the exact result rounded to the nearest double, ties
  going to the even significand. \<open>round_even\<close> rounds to the nearest integer in that way and
  \<open>round_double\<close> rounds a real to 53 significant bits. The exponent range is not bounded
  here: the values of the bearing resolver stay below 1024, and a difference of two doubles
  that is too small for a normal double is exact.
\<close>

definition round_even :: "real \<Rightarrow> int" where
  "round_even y =
     (let f = \<lfloor>y\<rfloor>; r = y - of_int f
      in if r < 1 / 2 then f
         else if 1 / 2 < r then f + 1
         else if even f then f else f + 1)"

definition round_double :: "real \<Rightarrow> real" where
  "round_double x =
     (if x = 0 then 0
      else (let e = \<lfloor>log 2 \<bar>x\<bar>\<rfloor>; u = 2 powr (of_int e - 52)
            in u * of_int (round_even (x / u))))"

definition float_sub :: "real \<Rightarrow> real \<Rightarrow> real" where
  "float_sub a b = round_double (a - b)"

definition float_add :: "real \<Rightarrow> real \<Rightarrow> real" where
  "float_add a b = round_double (a + b)"

text \<open>
  Python's \<^verbatim>\<open>x % m\<close> on floats, for a modulus other than zero: the remainder of the C
  function \<^verbatim>\<open>fmod\<close>, which is exact and has the sign of \<^verbatim>\<open>x\<close>, with \<^verbatim>\<open>m\<close> added when
  the remainder is not zero and its sign differs from the sign of \<^verbatim>\<open>m\<close>.
\<close>

definition fmod :: "real \<Rightarrow> real \<Rightarrow> real" where
  "fmod x m = x - m * of_int (if 0 \<le> x / m then \<lfloor>x / m\<rfloor> else \<lceil>x / m\<rceil>)"

definition float_mod :: "real \<Rightarrow> real \<Rightarrow> real" where
  "float_mod x m =
     (let r = fmod x m
      in if r \<noteq> 0 then (if (m < 0) \<noteq> (r < 0) then float_add r m else r) else 0)"

text \<open>
  \<^verbatim>\<open>get_turn_direction\<close>: the dictionary lookup raises \<^verbatim>\<open>KeyError\<close> on an unknown name;
  otherwise \<^verbatim>\<open>(target_heading - current_heading + 360) % 360\<close> is computed in double
  arithmetic, the integer bearing being converted exactly, and compared with 180.
\<close>

definition get_turn_direction :: "real \<Rightarrow> string \<Rightarrow> py_error + string" where
  "get_turn_direction current_heading target_cardinal_direction =
     (case map_of cardinal_directions target_cardinal_direction of
        None \<Rightarrow> Inl KeyError
      | Some target_heading \<Rightarrow>
          (let angle_diff =
                 float_mod (float_add (float_sub (of_int target_heading) current_heading) 360) 360
           in if angle_diff < 180 then Inr ''right'' else Inr ''left''))"

section \<open>Instruction rewriting (phone variant)\<close>

text \<open>Python's substring test \<^verbatim>\<open>sub in text\<close>.\<close>

fun contains :: "string \<Rightarrow> string \<Rightarrow> bool" where
  "contains sub [] = (sub = [])"
| "contains sub (c # cs) = (take (length sub) (c # cs) = sub \<or> contains sub cs)"

text \<open>
  Python's \<^verbatim>\<open>text.replace(old, new)\<close>: every non-overlapping occurrence of \<^verbatim>\<open>old\<close>,
  scanning from the left, is replaced; an empty \<^verbatim>\<open>old\<close> matches before every character
  and at the end.
\<close>

function replace :: "string \<Rightarrow> string \<Rightarrow> string \<Rightarrow> string" where
  "replace old new [] = (if old = [] then new else [])"
| "replace old new (c # cs) =
     (if old = [] then new @ c # replace old new cs
      else if take (length old) (c # cs) = old
           then new @ replace old new (drop (length old) (c # cs))
           else c # replace old new cs)"
  by pat_completeness auto
termination
  by (relation "measure (\<lambda>(old, new, text). length text)") auto

text \<open>
  The order in which the inner loop of \<^verbatim>\<open>convert_to_turn_directions\<close> visits the
  cardinal names.
\<close>

definition cardinal_order :: "string list" where
  "cardinal_order =
     [''northeast'', ''northwest'', ''southeast'', ''southwest'',
      ''east'', ''west'', ''north'', ''south'']"

text \<open>One iteration of the inner loop on the instruction text of one step.\<close>

definition rewrite_token :: "real \<Rightarrow> string \<Rightarrow> string \<Rightarrow> py_error + string" where
  "rewrite_token current_heading cardinal_dir text =
     (if contains cardinal_dir text
      then (case get_turn_direction current_heading cardinal_dir of
              Inl e \<Rightarrow> Inl e
            | Inr word \<Rightarrow> Inr (replace cardinal_dir word text))
      else Inr text)"

text \<open>
  The inner loop, with the list of names as a parameter so that other application orders
  can be compared with the one of the code.
\<close>

fun rewrite_in_order :: "string list \<Rightarrow> real \<Rightarrow> string \<Rightarrow> py_error + string" where
  "rewrite_in_order [] current_heading text = Inr text"
| "rewrite_in_order (cardinal_dir # rest) current_heading text =
     (case rewrite_token current_heading cardinal_dir text of
        Inl e \<Rightarrow> Inl e
      | Inr text' \<Rightarrow> rewrite_in_order rest current_heading text')"

definition rewrite_instruction :: "real \<Rightarrow> string \<Rightarrow> py_error + string" where
  "rewrite_instruction = rewrite_in_order cardinal_order"

text \<open>
  \<^verbatim>\<open>convert_to_turn_directions\<close>: the heading is read once from the motion sensor (an
  input here) and every step's instruction is rewritten in place.
\<close>

fun convert_to_turn_directions :: "real \<Rightarrow> step list \<Rightarrow> py_error + step list" where
  "convert_to_turn_directions current_heading [] = Inr []"
| "convert_to_turn_directions current_heading (s # ss) =
     (case rewrite_instruction current_heading (html_instructions s) of
        Inl e \<Rightarrow> Inl e
      | Inr text \<Rightarrow>
          (case convert_to_turn_directions current_heading ss of
             Inl e \<Rightarrow> Inl e
           | Inr ss' \<Rightarrow> Inr (s\<lparr>html_instructions := text\<rparr> # ss')))"

section \<open>Geo math (phone variant)\<close>

text \<open>
  \<^verbatim>\<open>math.radians\<close>, \<^verbatim>\<open>math.sqrt\<close> (which raises \<^verbatim>\<open>ValueError\<close> on a negative argument) and
  \<^verbatim>\<open>math.atan2\<close>, on reals.
\<close>

definition radians :: "real \<Rightarrow> real" where
  "radians x = x * pi / 180"

definition py_sqrt :: "real \<Rightarrow> py_error + real" where
  "py_sqrt x = (if x < 0 then Inl ValueError else Inr (sqrt x))"

definition atan2 :: "real \<Rightarrow> real \<Rightarrow> real" where
  "atan2 y x =
     (if 0 < x then arctan (y / x)
      else if x < 0 then (if 0 \<le> y then arctan (y / x) + pi else arctan (y / x) - pi)
      else if 0 < y then pi / 2
      else if y < 0 then - (pi / 2)
      else 0)"

text \<open>
  \<^verbatim>\<open>GPS_Navigator.geodesic_distance\<close>: the haversine formula with radius 6373 km, on
  exact real numbers. The code evaluates the formula in double precision; the rounding of
  its operations is not modelled, so that the value of the definition is the distance of
  the code up to rounding, and a \<^verbatim>\<open>ValueError\<close> of the code that is due to rounding alone
  does not show in the definition.
\<close>

definition geodesic_distance :: "coord \<Rightarrow> coord \<Rightarrow> py_error + real" where
  "geodesic_distance coord_1 coord_2 =
     (let R = 6373.0 * 1000;
          c1 = (radians (fst coord_1), radians (snd coord_1));
          c2 = (radians (fst coord_2), radians (snd coord_2));
          dlon = snd c2 - snd c1;
          dlat = fst c2 - fst c1;
          a = (sin (dlat / 2))\<^sup>2 + cos (fst c1) * cos (fst c2) * (sin (dlon / 2))\<^sup>2
      in case py_sqrt a of
           Inl e \<Rightarrow> Inl e
         | Inr sa \<Rightarrow>
             (case py_sqrt (1 - a) of
                Inl e \<Rightarrow> Inl e
              | Inr sb \<Rightarrow> Inr (R * (2 * atan2 sa sb))))"

section \<open>Fetching directions\<close>

text \<open>
  What \<^verbatim>\<open>requests.get\<close> hands back: the HTTP status code and the decoded JSON payload,
  with its \<^verbatim>\<open>status\<close> field and its \<^verbatim>\<open>routes\<close>; a route is the list of its legs and a leg
  the list of its steps.
\<close>

record response =
  status_code :: int
  payload_status :: string
  routes :: "step list list list"

text \<open>
  \<^verbatim>\<open>get_directions\<close> of the laptop variant (\<^verbatim>\<open>gps_api.py\<close>). \<^verbatim>\<open>None\<close> is the
  value \<open>Inr None\<close>; reading \<^verbatim>\<open>[0]\<close> of an empty list raises \<^verbatim>\<open>IndexError\<close>.
\<close>

definition get_directions :: "response \<Rightarrow> py_error + step list option" where
  "get_directions resp =
     (if status_code resp = 200 then
        (if payload_status resp = ''OK'' then
           (case routes resp of
              [] \<Rightarrow> Inl IndexError
            | route # _ \<Rightarrow>
                (case route of
                   [] \<Rightarrow> Inl IndexError
                 | leg # _ \<Rightarrow> Inr (Some leg)))
         else Inr None)
      else Inr None)"

text \<open>
  \<^verbatim>\<open>GPS_Navigator.get_directions\<close> of the phone variant. On the success path the steps
  are rewritten and their coordinates turned into pairs, and then the function body ends
  without a \<^verbatim>\<open>return\<close> statement: the call evaluates to \<^verbatim>\<open>None\<close>. The heading read by
  \<^verbatim>\<open>convert_to_turn_directions\<close> is an input.
\<close>

definition GPS_Navigator_get_directions :: "real \<Rightarrow> response \<Rightarrow> py_error + step list option" where
  "GPS_Navigator_get_directions current_heading resp =
     (if status_code resp = 200 then
        (if payload_status resp = ''OK'' then
           (case routes resp of
              [] \<Rightarrow> Inl IndexError
            | route # _ \<Rightarrow>
                (case route of
                   [] \<Rightarrow> Inl IndexError
                 | leg # _ \<Rightarrow>
                     (case convert_to_turn_directions current_heading leg of
                        Inl e \<Rightarrow> Inl e
                      | Inr steps \<Rightarrow> Inr None)))
         else Inr None)
      else Inr None)"

section \<open>Closest step (laptop variant)\<close>

text \<open>
  \<^verbatim>\<open>min_distance\<close> starts as \<^verbatim>\<open>float("inf")\<close> and then holds distances: a finite value or
  plus infinity, with the comparison \<^verbatim>\<open>distance < min_distance\<close>.
\<close>

datatype py_float = Fin real | PInf

fun float_less :: "real \<Rightarrow> py_float \<Rightarrow> bool" where
  "float_less d PInf = True"
| "float_less d (Fin m) = (d < m)"

text \<open>
  The \<^verbatim>\<open>for\<close> loop of \<^verbatim>\<open>get_closest_step\<close>, on the pair
  (\<^verbatim>\<open>closest_step\<close>, \<^verbatim>\<open>min_distance\<close>). The library function \<^verbatim>\<open>geopy.distance.geodesic\<close>
  is not part of the repository and is a parameter; it is called with the step's end
  coordinate first.
\<close>

fun closest_loop ::
  "(coord \<Rightarrow> coord \<Rightarrow> real) \<Rightarrow> coord \<Rightarrow> step list \<Rightarrow> step option \<times> py_float \<Rightarrow>
   step option \<times> py_float" where
  "closest_loop geodesic user_coords [] acc = acc"
| "closest_loop geodesic user_coords (s # ss) (closest_step, min_distance) =
     (let distance = geodesic (end_location s) user_coords
      in if float_less distance min_distance
         then closest_loop geodesic user_coords ss (Some s, Fin distance)
         else closest_loop geodesic user_coords ss (closest_step, min_distance))"

definition get_closest_step ::
  "(coord \<Rightarrow> coord \<Rightarrow> real) \<Rightarrow> coord \<Rightarrow> step list \<Rightarrow> step option \<times> py_float" where
  "get_closest_step geodesic current_location steps =
     closest_loop geodesic current_location steps (None, PInf)"

section \<open>The tick loop of the phone variant\<close>

text \<open>
  What a tick prints or displays: the \<^verbatim>\<open>Current step\<close> line (instruction and distance
  label), the \<^verbatim>\<open>You are off route!\<close> line, and a call of \<^verbatim>\<open>display_steps\<close>.
\<close>

datatype event = CurrentStep string string | OffRoute | DisplaySteps "step list"

text \<open>
  Where control is after a piece of a session: still inside the \<^verbatim>\<open>while\<close> loop with the
  given variables, past the loop (its condition was false), or left through \<^verbatim>\<open>return\<close>.
\<close>

datatype 'st flow = Running 'st | Finished 'st | Returned

text \<open>
  The local variables of \<^verbatim>\<open>GPS_Navigator.__call__\<close>. \<^verbatim>\<open>prev_distance\<close> is optional so
  that an unset value (\<^verbatim>\<open>None\<close>) can be told from a number; the code only ever assigns
  numbers to it.
\<close>

record nav_state =
  steps :: "step list"
  step_idx :: nat
  prev_distance :: "real option"

text \<open>
  The lines of \<^verbatim>\<open>__call__\<close> before the loop. The value of the first
  \<^verbatim>\<open>self.get_directions\<close> call is the argument \<open>fetched\<close>.
\<close>

definition call_start ::
  "coord \<Rightarrow> step list option \<Rightarrow> py_error + event list \<times> nav_state flow" where
  "call_start current_location fetched =
     (case fetched of
        None \<Rightarrow> Inr ([], Returned)
      | Some new_steps \<Rightarrow>
          (case new_steps of
             [] \<Rightarrow> Inl IndexError
           | s0 # _ \<Rightarrow>
               (case geodesic_distance current_location (end_location s0) of
                  Inl e \<Rightarrow> Inl e
                | Inr d \<Rightarrow>
                    Inr ([DisplaySteps new_steps],
                         Running \<lparr>steps = new_steps, step_idx = 0, prev_distance = Some d\<rparr>))))"

text \<open>
  One pass through the body of the \<^verbatim>\<open>while\<close> loop. Its inputs are the location sample
  read by \<^verbatim>\<open>get_current_location\<close> and \<open>reroute\<close>, the value that the call
  \<^verbatim>\<open>self.get_directions(current_location, self.destination)\<close> in the off-route branch
  evaluates to (used only in that branch). The distance is taken to \<^verbatim>\<open>steps[0]\<close>, as the
  source has it; comparing a number with an unset \<^verbatim>\<open>prev_distance\<close> would raise
  \<^verbatim>\<open>TypeError\<close>. After a new route is installed \<^verbatim>\<open>prev_distance\<close> is first set to the
  distance to the new first step and then, by the last assignment of the body, to the
  distance computed at the top of the tick.
\<close>

definition call_tick ::
  "real \<Rightarrow> nav_state \<Rightarrow> coord \<Rightarrow> step list option \<Rightarrow>
   py_error + event list \<times> nav_state flow" where
  "call_tick eps st current_location reroute =
     (case steps st of
        [] \<Rightarrow> Inl IndexError
      | s0 # _ \<Rightarrow>
          (case geodesic_distance current_location (end_location s0) of
             Inl e \<Rightarrow> Inl e
           | Inr distance \<Rightarrow>
               if distance < eps then
                 (let idx = step_idx st + 1
                  in Inr ((if idx < length (steps st)
                           then [CurrentStep (html_instructions (steps st ! idx))
                                             (distance_text (steps st ! idx))]
                           else []),
                          Running (st\<lparr>step_idx := idx, prev_distance := Some distance\<rparr>)))
               else
                 (case prev_distance st of
                    None \<Rightarrow> Inl TypeError
                  | Some prev \<Rightarrow>
                      if distance > prev then
                        (case reroute of
                           None \<Rightarrow> Inr ([OffRoute], Returned)
                         | Some new_steps \<Rightarrow>
                             (case new_steps of
                                [] \<Rightarrow> Inl IndexError
                              | n0 # _ \<Rightarrow>
                                  (case geodesic_distance current_location (end_location n0) of
                                     Inl e \<Rightarrow> Inl e
                                   | Inr d0 \<Rightarrow>
                                       Inr ([OffRoute, DisplaySteps new_steps],
                                            Running (\<lparr>steps = new_steps, step_idx = 0,
                                                      prev_distance = Some d0\<rparr>
                                                     \<lparr>prev_distance := Some distance\<rparr>)))))
                      else Inr ([], Running (st\<lparr>prev_distance := Some distance\<rparr>)))))"

text \<open>
  The \<^verbatim>\<open>while step_idx < len(steps)\<close> loop, driven by a finite list of inputs (one pair
  of sample and rerouting result per tick); it stays \<open>Running\<close> when the inputs are used
  up while the condition still holds.
\<close>

fun call_loop ::
  "real \<Rightarrow> nav_state \<Rightarrow> (coord \<times> step list option) list \<Rightarrow>
   py_error + event list \<times> nav_state flow" where
  "call_loop eps st inputs =
     (if step_idx st < length (steps st) then
        (case inputs of
           [] \<Rightarrow> Inr ([], Running st)
         | (current_location, reroute) # rest \<Rightarrow>
             (case call_tick eps st current_location reroute of
                Inl e \<Rightarrow> Inl e
              | Inr (evs, Running st') \<Rightarrow>
                  (case call_loop eps st' rest of
                     Inl e \<Rightarrow> Inl e
                   | Inr (evs', fl) \<Rightarrow> Inr (evs @ evs', fl))
              | Inr (evs, fl) \<Rightarrow> Inr (evs, fl)))
      else Inr ([], Finished st))"

section \<open>The tick loop of the laptop variant\<close>

text \<open>
  The comparison \<^verbatim>\<open>distance < 50\<close> on the distance returned by \<^verbatim>\<open>get_closest_step\<close>.
\<close>

fun float_below :: "py_float \<Rightarrow> real \<Rightarrow> bool" where
  "float_below PInf b = False"
| "float_below (Fin d) b = (d < b)"

text \<open>
  The local variables of \<^verbatim>\<open>main\<close> in \<^verbatim>\<open>gps_api.py\<close>. \<^verbatim>\<open>steps\<close> becomes \<^verbatim>\<open>None\<close> when a
  recomputation fails, and \<^verbatim>\<open>prev_step\<close> is assigned \<^verbatim>\<open>closest_step\<close>, which is \<^verbatim>\<open>None\<close>
  for an empty route.
\<close>

record main_state =
  main_steps :: "step list option"
  main_step_idx :: nat
  prev_step :: "step option"

text \<open>The lines of \<^verbatim>\<open>main\<close> between the first fetch and the loop.\<close>

definition main_start :: "step list option \<Rightarrow> py_error + event list \<times> main_state flow" where
  "main_start fetched =
     (case fetched of
        None \<Rightarrow> Inr ([], Returned)
      | Some new_steps \<Rightarrow>
          (case new_steps of
             [] \<Rightarrow> Inl IndexError
           | s0 # _ \<Rightarrow>
               Inr ([DisplaySteps new_steps,
                     CurrentStep (html_instructions s0) (distance_text s0)],
                    Running \<lparr>main_steps = Some new_steps, main_step_idx = 0,
                             prev_step = Some s0\<rparr>)))"

text \<open>
  One pass through the body of \<^verbatim>\<open>while step_idx <= len(steps)\<close>, for a route \<open>ss\<close> that
  is not \<^verbatim>\<open>None\<close>. \<open>reroute\<close> is the value of the \<^verbatim>\<open>get_directions\<close> call of the off-route
  branch. Calling \<^verbatim>\<open>.get\<close> on \<^verbatim>\<open>None\<close> raises \<^verbatim>\<open>AttributeError\<close>.
\<close>

definition main_tick ::
  "(coord \<Rightarrow> coord \<Rightarrow> real) \<Rightarrow> main_state \<Rightarrow> step list \<Rightarrow> coord \<Rightarrow> step list option \<Rightarrow>
   py_error + event list \<times> main_state" where
  "main_tick geodesic st ss current_location reroute =
     (case get_closest_step geodesic current_location ss of
        (closest_step, distance) \<Rightarrow>
          if float_below distance 50 then
            (case prev_step st of
               None \<Rightarrow> Inl AttributeError
             | Some p \<Rightarrow>
                 (case closest_step of
                    None \<Rightarrow> Inl AttributeError
                  | Some c \<Rightarrow>
                      if html_instructions p \<noteq> html_instructions c
                      then Inr ([CurrentStep (html_instructions c) (distance_text c)],
                                st\<lparr>prev_step := closest_step,
                                   main_step_idx := main_step_idx st + 1\<rparr>)
                      else Inr ([], st)))
          else
            (case reroute of
               None \<Rightarrow> Inr ([OffRoute], st\<lparr>main_steps := None\<rparr>)
             | Some new_steps \<Rightarrow>
                 Inr ([OffRoute, DisplaySteps new_steps],
                      st\<lparr>main_steps := Some new_steps, prev_step := closest_step,
                         main_step_idx := 0\<rparr>)))"

text \<open>
  The loop itself: \<^verbatim>\<open>len(steps)\<close> in the loop condition raises \<^verbatim>\<open>TypeError\<close> when
  \<^verbatim>\<open>steps\<close> is \<^verbatim>\<open>None\<close>.
\<close>

fun main_loop ::
  "(coord \<Rightarrow> coord \<Rightarrow> real) \<Rightarrow> main_state \<Rightarrow> (coord \<times> step list option) list \<Rightarrow>
   py_error + event list \<times> main_state flow" where
  "main_loop geodesic st inputs =
     (case main_steps st of
        None \<Rightarrow> Inl TypeError
      | Some ss \<Rightarrow>
          if main_step_idx st \<le> length ss then
            (case inputs of
               [] \<Rightarrow> Inr ([], Running st)
             | (current_location, reroute) # rest \<Rightarrow>
                 (case main_tick geodesic st ss current_location reroute of
                    Inl e \<Rightarrow> Inl e
                  | Inr (evs, st') \<Rightarrow>
                      (case main_loop geodesic st' rest of
                         Inl e \<Rightarrow> Inl e
                       | Inr (evs', fl) \<Rightarrow> Inr (evs @ evs', fl))))
          else Inr ([], Finished st))"

section \<open>Example data\<close>

text \<open>
  Three steps along the meridian 73.83 W whose end coordinates are 0.01 or 0.02 degrees
  of latitude (about 1.1 or 2.2 km) apart, used where a property is evaluated on a
  concrete route.
\<close>

definition step_a :: step where
  "step_a = \<lparr>html_instructions = ''Walk to A'', distance_text = ''0.7 mi'',
              start_location = (40.69, - 73.83), end_location = (40.70, - 73.83)\<rparr>"

definition step_b :: step where
  "step_b = \<lparr>html_instructions = ''Walk to B'', distance_text = ''0.7 mi'',
              start_location = (40.70, - 73.83), end_location = (40.71, - 73.83)\<rparr>"

definition step_d :: step where
  "step_d = \<lparr>html_instructions = ''Walk to D'', distance_text = ''0.7 mi'',
              start_location = (40.72, - 73.83), end_location = (40.73, - 73.83)\<rparr>"

text \<open>
  A stand-in for the library distance of the laptop variant on these points: zero between
  equal coordinates and one kilometre otherwise.
\<close>

definition coarse_distance :: "coord \<Rightarrow> coord \<Rightarrow> real" where
  "coarse_distance p q = (if p = q then 0 else 1000)"

declare call_loop.simps [simp del]
declare main_loop.simps [simp del]

section \<open>Properties of the bearing resolver\<close>

text \<open>
  Rounding to a double leaves every real with a significand of at most 53 bits as it is,
  whole numbers below \<open>2\<^sup>5\<^sup>3\<close> among them.
\<close>

lemma round_even_of_int: "round_even (of_int n) = n"
  by (simp add: round_even_def)

lemma round_double_at:
  assumes "2 powr of_int e \<le> \<bar>x\<bar>" and "\<bar>x\<bar> < 2 powr (of_int e + 1)"
  shows "round_double x = 2 powr (of_int e - 52) * of_int (round_even (x / 2 powr (of_int e - 52)))"
proof -
  have "(0::real) < 2 powr of_int e" by simp
  with assms(1) have pos: "0 < \<bar>x\<bar>" by linarith
  then have nz: "x \<noteq> 0" by auto
  have "\<lfloor>log 2 \<bar>x\<bar>\<rfloor> = e"
    using assms pos by (simp add: floor_log_eq_powr_iff)
  with nz show ?thesis by (simp add: round_double_def Let_def)
qed

lemma round_double_representable:
  assumes "\<bar>m\<bar> < 2 ^ 53"
  shows "round_double (of_int m * 2 powr of_int k) = of_int m * 2 powr of_int k"
proof (cases "m = 0")
  case True
  then show ?thesis by (simp add: round_double_def)
next
  case False
  define x :: real where "x = of_int m * 2 powr of_int k"
  have ax: "\<bar>x\<bar> = of_int \<bar>m\<bar> * 2 powr of_int k" by (simp add: x_def abs_mult)
  have pos: "0 < \<bar>x\<bar>" using False by (simp add: x_def)
  define e where "e = \<lfloor>log 2 \<bar>x\<bar>\<rfloor>"
  from pos have lo: "2 powr of_int e \<le> \<bar>x\<bar>" and hi: "\<bar>x\<bar> < 2 powr (of_int e + 1)"
    using floor_log_eq_powr_iff [of "\<bar>x\<bar>" 2 e] by (simp_all add: e_def)
  have "of_int \<bar>m\<bar> < (2::real) ^ 53" using assms by (metis of_int_less_numeral_power_cancel_iff)
  then have "\<bar>x\<bar> < 2 ^ 53 * 2 powr of_int k" unfolding ax by (simp add: mult_strict_right_mono)
  also have "\<dots> = 2 powr (53 + of_int k)" by (simp add: powr_add)
  finally have "\<bar>x\<bar> < 2 powr (53 + of_int k)" .
  with lo have "2 powr of_int e < (2::real) powr (53 + of_int k)" by linarith
  then have "of_int e < (53::real) + of_int k" by simp
  then have "e < 53 + k" by linarith
  then have j0: "0 \<le> k + 52 - e" by simp
  define j where "j = nat (k + 52 - e)"
  have jj: "of_int k - (of_int e - 52) = real j" using j0 by (simp add: j_def)
  have "x / 2 powr (of_int e - 52) = of_int m * 2 powr (of_int k - (of_int e - 52))"
    by (simp add: x_def powr_diff)
  also have "\<dots> = of_int m * 2 ^ j" by (simp only: jj powr_realpow)
  also have "\<dots> = of_int (m * 2 ^ j)" by simp
  finally have q: "x / 2 powr (of_int e - 52) = of_int (m * 2 ^ j)" .
  have "round_double x = 2 powr (of_int e - 52) * of_int (round_even (x / 2 powr (of_int e - 52)))"
    using lo hi by (rule round_double_at)
  also have "\<dots> = 2 powr (of_int e - 52) * (x / 2 powr (of_int e - 52))"
    by (simp only: q round_even_of_int)
  also have "\<dots> = x" by simp
  finally show ?thesis by (simp add: x_def)
qed

lemma round_double_of_int: "\<bar>m\<bar> < 2 ^ 53 \<Longrightarrow> round_double (of_int m) = of_int m"
  using round_double_representable [of m 0] by simp

text \<open>
  For a non-negative argument and a positive modulus Python's remainder is the exact
  remainder, which lies between 0 and the modulus.
\<close>

lemma fmod_nonneg:
  assumes "0 \<le> x" and "0 < m"
  shows "fmod x m = x - m * of_int \<lfloor>x / m\<rfloor>" and "0 \<le> fmod x m" and "fmod x m < m"
proof -
  from assms have q: "0 \<le> x / m" by simp
  then show e: "fmod x m = x - m * of_int \<lfloor>x / m\<rfloor>" by (simp add: fmod_def)
  have "m * of_int \<lfloor>x / m\<rfloor> \<le> m * (x / m)"
    using assms(2) by (intro mult_left_mono) simp_all
  also have "\<dots> = x" using assms(2) by simp
  finally show "0 \<le> fmod x m" by (simp add: e)
  have "x / m < of_int \<lfloor>x / m\<rfloor> + 1" by linarith
  then have "m * (x / m) < m * (of_int \<lfloor>x / m\<rfloor> + 1)"
    using assms(2) by (intro mult_strict_left_mono)
  then have "x < m * (of_int \<lfloor>x / m\<rfloor> + 1)" using assms(2) by simp
  then show "fmod x m < m" by (simp add: e algebra_simps)
qed

lemma float_mod_nonneg:
  assumes "0 \<le> x" and "0 < m"
  shows "float_mod x m = x - m * of_int \<lfloor>x / m\<rfloor>"
  using fmod_nonneg [OF assms] assms(2) by (auto simp: float_mod_def Let_def)

lemma exact_mod_360:
  assumes "0 \<le> x" and "x < 720"
  shows "x - 360 * of_int \<lfloor>x / 360\<rfloor> = (if x < 360 then x else x - 360)"
proof (cases "x < 360")
  case True
  with assms have "\<lfloor>x / 360\<rfloor> = 0" by (simp add: floor_eq_iff)
  with True show ?thesis by simp
next
  case False
  with assms have "\<lfloor>x / 360\<rfloor> = 1" by (simp add: floor_eq_iff)
  with False show ?thesis by simp
qed

text \<open>
  For a heading of whole degrees no operation rounds, and the decision is the one of
  integer arithmetic.
\<close>

lemma get_turn_direction_whole_degrees:
  assumes "0 \<le> n" and "n < 360" and "map_of cardinal_directions c = Some t"
    and "0 \<le> t" and "t \<le> 315"
  shows "get_turn_direction (of_int n) c =
           Inr (if (t - n + 360) mod 360 < 180 then ''right'' else ''left'')"
proof -
  have a: "float_sub (of_int t) (of_int n) = of_int (t - n)"
  proof -
    have "\<bar>t - n\<bar> < 2 ^ 53" using assms by simp
    then have "round_double (of_int (t - n)) = of_int (t - n)" by (rule round_double_of_int)
    then show ?thesis by (simp add: float_sub_def)
  qed
  have b: "float_add (of_int (t - n)) 360 = of_int (t - n + 360)"
  proof -
    have "\<bar>t - n + 360\<bar> < 2 ^ 53" using assms by simp
    then have "round_double (of_int (t - n + 360)) = of_int (t - n + 360)"
      by (rule round_double_of_int)
    then show ?thesis by (simp add: float_add_def)
  qed
  have nn: "(0::real) \<le> of_int (t - n + 360)" using assms by simp
  have "float_mod (of_int (t - n + 360)) 360 =
        of_int (t - n + 360) - 360 * of_int \<lfloor>real_of_int (t - n + 360) / 360\<rfloor>"
    using nn by (rule float_mod_nonneg) simp
  also have "\<lfloor>real_of_int (t - n + 360) / 360\<rfloor> = (t - n + 360) div 360"
    using floor_divide_of_int_eq [of "t - n + 360" 360, where ?'a = real] by simp
  also have "real_of_int (t - n + 360) - 360 * of_int ((t - n + 360) div 360) =
             of_int ((t - n + 360) mod 360)"
    by (simp add: minus_mult_div_eq_mod [symmetric] del: minus_mult_div_eq_mod)
  finally have c: "float_mod (of_int (t - n + 360)) 360 = of_int ((t - n + 360) mod 360)" .
  have g: "get_turn_direction (of_int n) c =
        (if float_mod (float_add (float_sub (of_int t) (of_int n)) 360) 360 < 180
         then Inr ''right'' else Inr ''left'')"
    unfolding get_turn_direction_def assms(3) option.case Let_def ..
  show ?thesis unfolding g a b c by simp
qed

lemma turn_at_heading_0:
  "get_turn_direction 0 ''northeast'' = Inr ''right''"
  "get_turn_direction 0 ''north'' = Inr ''right''"
  "get_turn_direction 0 ''east'' = Inr ''right''"
  using get_turn_direction_whole_degrees [of 0 "''northeast''" 45]
    get_turn_direction_whole_degrees [of 0 "''north''" 0]
    get_turn_direction_whole_degrees [of 0 "''east''" 90]
  by (simp_all add: cardinal_directions_def)

text \<open>
  Two headings at which rounding decides. Each is a double, and in each the sum with 360
  lies halfway between two doubles and is rounded to the one with the even significand.
\<close>

lemma rd_tie_540: "round_double (540 - 1 / 2 ^ 44) = 540"
proof -
  have "round_double (540 - 1 / 2 ^ 44) =
        2 powr (of_int 9 - 52) * of_int (round_even ((540 - 1 / 2 ^ 44) / 2 powr (of_int 9 - 52)))"
    by (rule round_double_at) simp_all
  also have "2 powr (of_int 9 - 52) = (1 / 2 ^ 43 :: real)"
    by (simp add: powr_minus_divide)
  also have "(540 - 1 / 2 ^ 44) / (1 / 2 ^ 43) = (540 * 2 ^ 43 - 1 / 2 :: real)" by simp
  also have "round_even (540 * 2 ^ 43 - 1 / 2) = 540 * 2 ^ 43"
  proof -
    have f: "\<lfloor>540 * 2 ^ 43 - 1 / 2 :: real\<rfloor> = 540 * 2 ^ 43 - 1"
      by (rule floor_unique) simp_all
    show ?thesis unfolding round_even_def Let_def f by simp
  qed
  finally show ?thesis by simp
qed

lemma rd_180_below: "round_double (180 - 1 / 2 ^ 44) = 180 - 1 / 2 ^ 44"
proof -
  have r: "round_double (of_int (180 * 2 ^ 44 - 1) * 2 powr of_int (- 44)) =
        of_int (180 * 2 ^ 44 - 1) * 2 powr of_int (- 44)"
    by (rule round_double_representable) simp
  have p: "(2::real) powr of_int (- 44) = 1 / 2 ^ 44"
    by (simp add: powr_minus_divide)
  have q: "of_int (180 * 2 ^ 44 - 1) * (1 / 2 ^ 44) = (180 - 1 / 2 ^ 44 :: real)"
    by (simp add: field_simps)
  from r show ?thesis by (simp only: p q)
qed

lemma turn_southwest_tie: "get_turn_direction (45 + 1 / 2 ^ 44) ''southwest'' = Inr ''left''"
proof -
  have look: "map_of cardinal_directions ''southwest'' = Some 225"
    by (simp add: cardinal_directions_def)
  have e1: "(of_int 225 :: real) - (45 + 1 / 2 ^ 44) = 180 - 1 / 2 ^ 44" by simp
  have a: "float_sub (of_int 225) (45 + 1 / 2 ^ 44) = 180 - 1 / 2 ^ 44"
    by (simp only: float_sub_def e1 rd_180_below)
  have e2: "(180 - 1 / 2 ^ 44 :: real) + 360 = 540 - 1 / 2 ^ 44" by simp
  have b: "float_add (180 - 1 / 2 ^ 44) 360 = 540"
    by (simp only: float_add_def e2 rd_tie_540)
  have c: "float_mod 540 360 = 180"
    by (simp add: float_mod_nonneg)
  have "get_turn_direction (45 + 1 / 2 ^ 44) ''southwest'' =
        (if float_mod (float_add (float_sub (of_int 225) (45 + 1 / 2 ^ 44)) 360) 360 < 180
         then Inr ''right'' else Inr ''left'')"
    unfolding get_turn_direction_def look option.case Let_def ..
  also have "\<dots> = Inr ''left''" unfolding a b c by simp
  finally show ?thesis .
qed

lemma rd_tie_360: "round_double (360 - 1 / 2 ^ 45) = 360"
proof -
  have "round_double (360 - 1 / 2 ^ 45) =
        2 powr (of_int 8 - 52) * of_int (round_even ((360 - 1 / 2 ^ 45) / 2 powr (of_int 8 - 52)))"
    by (rule round_double_at) simp_all
  also have "2 powr (of_int 8 - 52) = (1 / 2 ^ 44 :: real)"
    by (simp add: powr_minus_divide)
  also have "(360 - 1 / 2 ^ 45) / (1 / 2 ^ 44) = (360 * 2 ^ 44 - 1 / 2 :: real)" by simp
  also have "round_even (360 * 2 ^ 44 - 1 / 2) = 360 * 2 ^ 44"
  proof -
    have f: "\<lfloor>360 * 2 ^ 44 - 1 / 2 :: real\<rfloor> = 360 * 2 ^ 44 - 1"
      by (rule floor_unique) simp_all
    show ?thesis unfolding round_even_def Let_def f by simp
  qed
  finally show ?thesis by simp
qed

lemma rd_small: "round_double (- (1 / 2 ^ 45)) = - (1 / 2 ^ 45)"
proof -
  have r: "round_double (of_int (- 1) * 2 powr of_int (- 45)) = of_int (- 1) * 2 powr of_int (- 45)"
    by (rule round_double_representable) simp
  have p: "(2::real) powr of_int (- 45) = 1 / 2 ^ 45"
    by (simp add: powr_minus_divide)
  have q: "of_int (- 1) * (1 / 2 ^ 45) = (- (1 / 2 ^ 45) :: real)" by simp
  from r show ?thesis by (simp only: p q)
qed

lemma turn_south_tie: "get_turn_direction (180 + 1 / 2 ^ 45) ''south'' = Inr ''right''"
proof -
  have look: "map_of cardinal_directions ''south'' = Some 180"
    by (simp add: cardinal_directions_def)
  have e1: "(of_int 180 :: real) - (180 + 1 / 2 ^ 45) = - (1 / 2 ^ 45)" by simp
  have a: "float_sub (of_int 180) (180 + 1 / 2 ^ 45) = - (1 / 2 ^ 45)"
    by (simp only: float_sub_def e1 rd_small)
  have e2: "(- (1 / 2 ^ 45) :: real) + 360 = 360 - 1 / 2 ^ 45" by simp
  have b: "float_add (- (1 / 2 ^ 45)) 360 = 360"
    by (simp only: float_add_def e2 rd_tie_360)
  have c: "float_mod 360 360 = 0"
    by (simp add: float_mod_nonneg)
  have "get_turn_direction (180 + 1 / 2 ^ 45) ''south'' =
        (if float_mod (float_add (float_sub (of_int 180) (180 + 1 / 2 ^ 45)) 360) 360 < 180
         then Inr ''right'' else Inr ''left'')"
    unfolding get_turn_direction_def look option.case Let_def ..
  also have "\<dots> = Inr ''right''" unfolding a b c by simp
  finally show ?thesis .
qed

text \<open>
  Claim C7 as stated: for every heading \<open>h\<close> in [0, 360) and every cardinal name, the
  result is \<^verbatim>\<open>right\<close> when \<open>diff = (bearing - h + 360) mod 360\<close> is strictly below 180 and
  \<^verbatim>\<open>left\<close> otherwise. With the difference taken exactly this fails at the heading
  \<open>45 + 2\<^sup>-\<^sup>4\<^sup>4\<close> and the name southwest, of bearing 225: the exact \<open>diff\<close> is
  \<open>180 - 2\<^sup>-\<^sup>4\<^sup>4\<close>, below 180, but the sum \<open>540 - 2\<^sup>-\<^sup>4\<^sup>4\<close> is rounded to 540 in double
  arithmetic, the computed remainder is 180, and the function returns \<^verbatim>\<open>left\<close>.
\<close>

theorem exact_diff_counterexample:
  "(0::real) \<le> 45 + 1 / 2 ^ 44 \<and> 45 + 1 / 2 ^ 44 < (360::real) \<and>
   of_int 225 - (45 + 1 / 2 ^ 44) + 360 = (180 - 1 / 2 ^ 44) + 360 * real_of_int 1 \<and>
   (0::real) \<le> 180 - 1 / 2 ^ 44 \<and> 180 - 1 / 2 ^ 44 < (180::real) \<and>
   get_turn_direction (45 + 1 / 2 ^ 44) ''southwest'' = Inr ''left''"
  using turn_southwest_tie by simp

text \<open>
  Claim C7, amended. For every heading \<open>h\<close> in [0, 360) and each of the eight cardinal
  names \<open>c\<close> with its reference bearing \<open>t\<close> (north 0, northeast 45, east 90, southeast 135,
  south 180, southwest 225, west 270, northwest 315), \<^verbatim>\<open>get_turn_direction\<close> does not
  raise and returns \<^verbatim>\<open>right\<close> when \<open>diff\<close> is strictly below 180 and \<^verbatim>\<open>left\<close> otherwise,
  where \<open>diff\<close> is the value computed in double arithmetic: \<open>t - h\<close> rounded, plus 360
  rounded, reduced modulo 360. The result is thus always one of the two words, a computed
  \<open>diff\<close> of 0 gives \<^verbatim>\<open>right\<close> and one of 180 gives \<^verbatim>\<open>left\<close>. When neither the subtraction
  nor the addition rounds, \<open>diff\<close> is the exact \<open>(t - h + 360) mod 360\<close>: the value in
  [0, 360) that differs from \<open>t - h + 360\<close> by a whole multiple of 360.
\<close>

theorem get_turn_direction_computed_diff:
  assumes "0 \<le> h" and "h < 360"
    and "(c, t) \<in> {(''north'', 0), (''northeast'', 45), (''east'', 90), (''southeast'', 135),
                     (''south'', 180), (''southwest'', 225), (''west'', 270), (''northwest'', 315)}"
  shows "get_turn_direction h c =
           Inr (if float_mod (float_add (float_sub (of_int t) h) 360) 360 < 180
                then ''right'' else ''left'') \<and>
         (round_double (of_int t - h) = of_int t - h \<and>
          round_double (of_int t - h + 360) = of_int t - h + 360 \<longrightarrow>
            (\<exists>diff k. 0 \<le> diff \<and> diff < 360 \<and> of_int t - h + 360 = diff + 360 * of_int k \<and>
               get_turn_direction h c = Inr (if diff < 180 then ''right'' else ''left'')))"
proof (intro conjI impI)
  from assms(3) have look: "map_of cardinal_directions c = Some t" and t: "0 \<le> t" "t \<le> 315"
    by (auto simp: cardinal_directions_def)
  show res: "get_turn_direction h c =
           Inr (if float_mod (float_add (float_sub (of_int t) h) 360) 360 < 180
                then ''right'' else ''left'')"
    by (simp add: get_turn_direction_def look Let_def)
  assume ex: "round_double (of_int t - h) = of_int t - h \<and>
          round_double (of_int t - h + 360) = of_int t - h + 360"
  let ?x = "of_int t - h + 360 :: real"
  from t assms(1,2) have x: "0 \<le> ?x" "?x < 720" by simp_all
  from ex have "float_add (float_sub (of_int t) h) 360 = ?x"
    by (simp add: float_add_def float_sub_def)
  then have m: "float_mod (float_add (float_sub (of_int t) h) 360) 360 = ?x - 360 * of_int \<lfloor>?x / 360\<rfloor>"
    using x(1) by (simp add: float_mod_nonneg)
  let ?d = "?x - 360 * of_int \<lfloor>?x / 360\<rfloor>"
  have bounds: "0 \<le> ?d \<and> ?d < 360" using x by (simp add: exact_mod_360)
  have "?x = ?d + 360 * of_int \<lfloor>?x / 360\<rfloor>" by simp
  moreover from res m have "get_turn_direction h c = Inr (if ?d < 180 then ''right'' else ''left'')"
    by (simp only:)
  ultimately show "\<exists>diff k. 0 \<le> diff \<and> diff < 360 \<and> of_int t - h + 360 = diff + 360 * of_int k \<and>
               get_turn_direction h c = Inr (if diff < 180 then ''right'' else ''left'')"
    using bounds by blast
qed

theorem get_turn_direction_computed_diff_witness:
  "(0::real) \<le> 180 \<and> (180::real) < 360 \<and>
   round_double (of_int 0 - 180) = of_int 0 - 180 \<and>
   round_double (of_int 0 - 180 + 360) = of_int 0 - 180 + 360 \<and>
   get_turn_direction 180 ''north'' = Inr ''left''"
proof -
  have r1: "round_double (of_int 0 - 180) = of_int 0 - 180"
    using round_double_of_int [of "- 180"] by simp
  have r2: "round_double (of_int 0 - 180 + 360) = of_int 0 - 180 + 360"
    using round_double_of_int [of 180] by simp
  from get_turn_direction_computed_diff [of 180 "''north''" 0] r1 r2
  obtain diff k where d: "0 \<le> diff" "diff < 360" "of_int 0 - (180::real) + 360 = diff + 360 * of_int k"
    and g: "get_turn_direction 180 ''north'' = Inr (if diff < 180 then ''right'' else ''left'')"
    by auto
  from d have "real_of_int k * 360 \<le> 180" "- 180 < real_of_int k * 360" by simp_all
  then have "k \<le> 0" "- 1 < k" by linarith+
  then have "k = 0" by simp
  with d have "diff = 180" by simp
  with g r1 r2 show ?thesis by simp
qed

section \<open>Properties of the distance function\<close>

text \<open>
  Between two points of one meridian less than 180 degrees of latitude apart, the
  haversine formula gives the radius times the difference of the latitudes in radians.
  The lemmas below evaluate \<^verbatim>\<open>geodesic_distance\<close> on the example route.
\<close>

lemma half_angle_bound:
  assumes "\<bar>lat2 - lat1\<bar> < 180"
  shows "\<bar>(radians lat2 - radians lat1) / 2\<bar> < pi / 2"
proof -
  have "(radians lat2 - radians lat1) / 2 = (lat2 - lat1) * (pi / 360)"
    by (simp add: radians_def diff_divide_distrib left_diff_distrib)
  then have "\<bar>(radians lat2 - radians lat1) / 2\<bar> = \<bar>lat2 - lat1\<bar> * (pi / 360)"
    by (simp only: abs_mult) simp
  also have "\<dots> < 180 * (pi / 360)"
    using assms by (intro mult_strict_right_mono) simp_all
  finally show ?thesis by simp
qed

lemma sqrt_sin_squared:
  assumes "\<bar>x\<bar> < pi / 2"
  shows "sqrt ((sin x)\<^sup>2) = sin \<bar>x\<bar>"
proof (cases "0 \<le> x")
  case True
  with assms have "0 \<le> sin x" by (intro sin_ge_zero) simp_all
  with True show ?thesis by simp
next
  case False
  with assms have "0 \<le> sin (- x)" by (intro sin_ge_zero) simp_all
  with False show ?thesis by simp
qed

lemma atan2_sin_cos:
  assumes "0 \<le> y" "y < pi / 2"
  shows "atan2 (sin y) (cos y) = y"
proof -
  from assms have "0 < cos y" by (intro cos_gt_zero_pi) simp_all
  moreover from assms have "arctan (tan y) = y" by (intro arctan_tan) simp_all
  ultimately show ?thesis by (simp add: atan2_def tan_def)
qed

lemma haversine_meridian:
  assumes "\<bar>x\<bar> < pi / 2"
  shows "py_sqrt ((sin x)\<^sup>2) = Inr (sin \<bar>x\<bar>)" and "py_sqrt (1 - (sin x)\<^sup>2) = Inr (cos \<bar>x\<bar>)"
proof -
  show "py_sqrt ((sin x)\<^sup>2) = Inr (sin \<bar>x\<bar>)"
    using sqrt_sin_squared [OF assms] by (simp add: py_sqrt_def)
  from assms have "0 < cos x" by (intro cos_gt_zero_pi) (simp_all add: abs_less_iff)
  moreover have "1 - (sin x)\<^sup>2 = (cos x)\<^sup>2"
    by (simp add: cos_squared_eq)
  ultimately show "py_sqrt (1 - (sin x)\<^sup>2) = Inr (cos \<bar>x\<bar>)"
    by (simp add: py_sqrt_def)
qed

lemma geodesic_distance_same_longitude:
  assumes "\<bar>lat2 - lat1\<bar> < 180"
  shows "geodesic_distance (lat1, lon) (lat2, lon) = Inr (6373000 * \<bar>radians lat2 - radians lat1\<bar>)"
proof -
  define x where "x = (radians lat2 - radians lat1) / 2"
  have bx: "\<bar>x\<bar> < pi / 2" unfolding x_def using assms by (rule half_angle_bound)
  have at: "atan2 (sin \<bar>x\<bar>) (cos \<bar>x\<bar>) = \<bar>x\<bar>" using bx by (intro atan2_sin_cos) simp_all
  have "geodesic_distance (lat1, lon) (lat2, lon) =
        (case py_sqrt ((sin x)\<^sup>2) of Inl e \<Rightarrow> Inl e
         | Inr sa \<Rightarrow> (case py_sqrt (1 - (sin x)\<^sup>2) of Inl e \<Rightarrow> Inl e
                      | Inr sb \<Rightarrow> Inr (6373000 * (2 * atan2 sa sb))))"
    by (simp add: geodesic_distance_def Let_def x_def cong: sum.case_cong)
  also have "\<dots> = Inr (6373000 * (2 * \<bar>x\<bar>))"
    by (simp only: haversine_meridian [OF bx] sum.case at)
  also have "2 * \<bar>x\<bar> = \<bar>radians lat2 - radians lat1\<bar>" by (simp add: x_def)
  finally show ?thesis .
qed


lemma meridian_distance:
  assumes "\<bar>lat2 - lat1\<bar> < 180"
  shows "geodesic_distance (lat1, lon) (lat2, lon) = Inr (6373000 * pi / 180 * \<bar>lat2 - lat1\<bar>)"
proof -
  have "radians lat2 - radians lat1 = (lat2 - lat1) * (pi / 180)"
    by (simp add: radians_def diff_divide_distrib left_diff_distrib)
  then have "\<bar>radians lat2 - radians lat1\<bar> = \<bar>lat2 - lat1\<bar> * (pi / 180)"
    by (simp only: abs_mult) simp
  with geodesic_distance_same_longitude [OF assms, of lon] show ?thesis by simp
qed

text \<open>
  On real numbers the haversine term stays between 0 and 1 for latitudes between -90 and
  90 degrees, so that neither square root raises. This is a fact about the formula; the
  code evaluates it in double precision, where the sum can be rounded to a value above 1.
\<close>

lemma radians_latitude:
  assumes "\<bar>lat\<bar> \<le> 90"
  shows "0 \<le> cos (radians lat)"
proof -
  have "\<bar>radians lat\<bar> = \<bar>lat\<bar> * (pi / 180)"
    by (simp add: radians_def abs_mult)
  also have "\<dots> \<le> 90 * (pi / 180)"
    using assms by (intro mult_right_mono) simp_all
  finally have "\<bar>radians lat\<bar> \<le> pi / 2" by simp
  then show ?thesis by (intro cos_ge_zero) (simp_all add: abs_le_iff)
qed

lemma haversine_term_bounds:
  fixes p1 p2 l :: real
  assumes "0 \<le> cos p1" and "0 \<le> cos p2"
  defines "a \<equiv> (sin ((p2 - p1) / 2))\<^sup>2 + cos p1 * cos p2 * (sin (l / 2))\<^sup>2"
  shows "0 \<le> a" and "a \<le> 1"
proof -
  have P: "0 \<le> cos p1 * cos p2" using assms(1,2) by simp
  have S: "(sin (l / 2))\<^sup>2 \<le> 1" by (simp add: power_le_one_iff abs_square_le_1)
  show "0 \<le> a" unfolding a_def using P by simp
  have "cos p1 * cos p2 * (sin (l / 2))\<^sup>2 \<le> cos p1 * cos p2 * 1"
    using P S by (intro mult_left_mono)
  then have "a \<le> (sin ((p2 - p1) / 2))\<^sup>2 + cos p1 * cos p2" unfolding a_def by simp
  also have "(sin ((p2 - p1) / 2))\<^sup>2 = (1 - cos (p2 - p1)) / 2"
  proof -
    have "2 * ((p2 - p1) / 2) = p2 - p1" by simp
    with cos_double_sin [of "(p2 - p1) / 2"]
    have "cos (p2 - p1) = 1 - 2 * (sin ((p2 - p1) / 2))\<^sup>2" by (simp only:)
    then show ?thesis by simp
  qed
  also have "(1 - cos (p2 - p1)) / 2 + cos p1 * cos p2 = (1 + cos (p1 + p2)) / 2"
    by (simp add: cos_diff cos_add field_simps)
  also have "\<dots> \<le> 1" using cos_le_one [of "p1 + p2"] by simp
  finally show "a \<le> 1" .
qed

lemma geodesic_distance_real_total:
  assumes "\<bar>fst coord_1\<bar> \<le> 90" and "\<bar>fst coord_2\<bar> \<le> 90"
  shows "\<exists>d. geodesic_distance coord_1 coord_2 = Inr d"
proof -
  note c = radians_latitude [OF assms(1)] radians_latitude [OF assms(2)]
  from haversine_term_bounds [OF c, of "radians (snd coord_2) - radians (snd coord_1)"]
  show ?thesis
    by (simp add: geodesic_distance_def py_sqrt_def Let_def)
qed

section \<open>Properties of the tick of the phone variant\<close>

text \<open>The off-route branch of the tick, with and without a new route.\<close>

lemma call_tick_reroute:
  assumes "steps st = s0 # rest"
    and "geodesic_distance loc (end_location s0) = Inr d"
    and "\<not> d < eps" and "prev_distance st = Some p" and "p < d"
    and "geodesic_distance loc (end_location n0) = Inr d0"
  shows "call_tick eps st loc (Some (n0 # ns)) =
           Inr ([OffRoute, DisplaySteps (n0 # ns)],
                Running \<lparr>steps = n0 # ns, step_idx = 0, prev_distance = Some d\<rparr>)"
  using assms by (simp add: call_tick_def)

lemma call_tick_reroute_failed:
  assumes "steps st = s0 # rest"
    and "geodesic_distance loc (end_location s0) = Inr d"
    and "\<not> d < eps" and "prev_distance st = Some p" and "p < d"
  shows "call_tick eps st loc None = Inr ([OffRoute], Returned)"
  using assms by (simp add: call_tick_def)



lemma ex_dist_1: "geodesic_distance (40.71, - 73.83) (end_location step_a) = Inr (6373 * pi / 18)"
  using meridian_distance [of "40.70" "40.71" "- 73.83"] by (simp add: step_a_def)

lemma ex_dist_0: "geodesic_distance (40.71, - 73.83) (end_location step_b) = Inr 0"
  using meridian_distance [of "40.71" "40.71" "- 73.83"] by (simp add: step_b_def)

lemma ex_big: "\<not> 6373 * pi / 18 < (3::real)"
  using pi_ge_two by simp

lemma ex_pos: "(0::real) < 6373 * pi / 18"
  by simp

text \<open>
  Claim C1 says that in state FOLLOWING(index) the distance that drives the decision of
  a tick is the one from the sample to the end of the step at the current index. The tick
  of the phone variant measures to the end of \<^verbatim>\<open>steps[0]\<close> at every index. On the route
  of steps A and B with index 1 and the last recorded distance 0 (the state right after
  arriving at the end of A), a sample taken exactly at the end of B has distance 0 to the
  step at the current index, which is below the threshold of 3 m; the tick decides on
  the distance to the end of A, about 1112 m, and reports that the traveller is off
  route.
\<close>

theorem tick_measures_first_step:
  "geodesic_distance (40.71, - 73.83)
     (end_location ([step_a, step_b] ! 1)) = Inr 0 \<and>
   call_tick 3 \<lparr>steps = [step_a, step_b], step_idx = 1, prev_distance = Some 0\<rparr>
     (40.71, - 73.83) None = Inr ([OffRoute], Returned)"
proof -
  have "call_tick 3 \<lparr>steps = [step_a, step_b], step_idx = 1, prev_distance = Some 0\<rparr>
     (40.71, - 73.83) None = Inr ([OffRoute], Returned)"
    by (rule call_tick_reroute_failed [OF _ ex_dist_1 ex_big _ ex_pos]) simp_all
  then show ?thesis using ex_dist_0 by simp
qed

text \<open>Distances and ticks on the example route that the following theorems evaluate.\<close>

lemma ex_dist_c_a: "geodesic_distance (40.72, - 73.83) (end_location step_a) = Inr (6373 * pi / 9)"
  using meridian_distance [of "40.70" "40.72" "- 73.83"] by (simp add: step_a_def)


lemma ex_dist_c_d: "geodesic_distance (40.72, - 73.83) (end_location step_d) = Inr (6373 * pi / 18)"
  using meridian_distance [of "40.73" "40.72" "- 73.83"] by (simp add: step_d_def)

lemma ex_big2: "\<not> 6373 * pi / 9 < (3::real)"
  using pi_ge_two by simp

lemma ex_pos2: "(0::real) < 6373 * pi / 9"
  by simp

lemma ex_reroute_tick_d:
  "call_tick 3 \<lparr>steps = [step_a, step_b], step_idx = 1, prev_distance = Some 0\<rparr>
     (40.72, - 73.83) (Some [step_d]) =
     Inr ([OffRoute, DisplaySteps [step_d]],
          Running \<lparr>steps = [step_d], step_idx = 0, prev_distance = Some (6373 * pi / 9)\<rparr>)"
  by (rule call_tick_reroute [OF _ ex_dist_c_a ex_big2 _ ex_pos2 ex_dist_c_d]) simp_all







text \<open>
  A tick of either variant that reports a deviation and receives a recomputed route
  installs that route and sets the index to 0, whatever the state before. In the phone
  variant the last distance after such a tick is the distance of the sample to the end of
  the first step of the route that was replaced.
\<close>

lemma reroute_installs_new_route:
  "(call_tick eps st loc (Some new_steps) = Inr (evs, Running st') \<and> OffRoute \<in> set evs \<longrightarrow>
      steps st' = new_steps \<and> step_idx st' = 0) \<and>
   (main_tick geodesic mst ss loc (Some new_steps) = Inr (mevs, mst') \<and> OffRoute \<in> set mevs \<longrightarrow>
      main_steps mst' = Some new_steps \<and> main_step_idx mst' = 0)"
proof -
  have phone: "steps st' = new_steps \<and> step_idx st' = 0"
    if "call_tick eps st loc (Some new_steps) = Inr (evs, Running st') \<and> OffRoute \<in> set evs"
    using that
    by (auto simp: call_tick_def Let_def split: list.splits sum.splits option.splits if_splits)
  have laptop: "main_steps mst' = Some new_steps \<and> main_step_idx mst' = 0"
    if "main_tick geodesic mst ss loc (Some new_steps) = Inr (mevs, mst') \<and> OffRoute \<in> set mevs"
    using that
    by (auto simp: main_tick_def split: prod.splits option.splits if_splits)
  from phone laptop show ?thesis by blast
qed

lemma reroute_keeps_old_distance:
  assumes "call_tick eps st loc (Some new_steps) = Inr (evs, Running st')"
    and "OffRoute \<in> set evs"
  shows "\<exists>s0 rest d. steps st = s0 # rest \<and>
           geodesic_distance loc (end_location s0) = Inr d \<and> prev_distance st' = Some d"
  using assms
  by (auto simp: call_tick_def Let_def split: list.splits sum.splits option.splits if_splits)

text \<open>
  Claim C5 says that right after the reset that goes with the installation of a new
  route the index is 0 and the last distance is unset, whatever the state before. The
  tick of the phone variant resets the index, and it sets \<^verbatim>\<open>prev_distance\<close> afresh from
  the new route, as the lines before the loop do; the last assignment of the loop body
  then overwrites that value with the distance measured at the top of the tick against
  the route that was replaced. On the route of steps A and B with index 1 and last
  distance 0, a sample about 2225 m from the end of A is reported as a deviation and the
  route of the single step D is installed, whose end is about 1112 m from the sample;
  after the tick the last distance is still the 2225 m to the end of A.
\<close>

theorem reset_keeps_stale_distance:
  "geodesic_distance (40.72, - 73.83) (end_location step_a) = Inr (6373 * pi / 9) \<and>
   geodesic_distance (40.72, - 73.83) (end_location step_d) = Inr (6373 * pi / 18) \<and>
   6373 * pi / 9 \<noteq> 6373 * pi / (18::real) \<and>
   call_tick 3 \<lparr>steps = [step_a, step_b], step_idx = 1, prev_distance = Some 0\<rparr>
     (40.72, - 73.83) (Some [step_d]) =
     Inr ([OffRoute, DisplaySteps [step_d]],
          Running \<lparr>steps = [step_d], step_idx = 0, prev_distance = Some (6373 * pi / 9)\<rparr>)"
  using ex_dist_c_a ex_dist_c_d ex_reroute_tick_d by simp

section \<open>Properties of the closest step\<close>

text \<open>
  The loop invariant of \<^verbatim>\<open>get_closest_step\<close>, once a first step has been taken up: the
  pair held is a step seen so far with its own distance, which is minimal among the steps
  seen.
\<close>

lemma closest_loop_inv:
  assumes "d = geodesic (end_location s) u"
  shows "\<exists>s' d'. closest_loop geodesic u ss (Some s, Fin d) = (Some s', Fin d') \<and>
           (s' = s \<or> s' \<in> set ss) \<and> d' = geodesic (end_location s') u \<and> d' \<le> d \<and>
           (\<forall>t\<in>set ss. d' \<le> geodesic (end_location t) u)"
  using assms
proof (induction ss arbitrary: s d)
  case Nil
  then show ?case by simp
next
  case (Cons x xs)
  show ?case
  proof (cases "geodesic (end_location x) u < d")
    case True
    from Cons.IH [of "geodesic (end_location x) u" x]
    obtain s' d' where r: "closest_loop geodesic u xs (Some x, Fin (geodesic (end_location x) u)) = (Some s', Fin d')"
      and m: "s' = x \<or> s' \<in> set xs" and e: "d' = geodesic (end_location s') u"
      and le: "d' \<le> geodesic (end_location x) u" and al: "\<forall>t\<in>set xs. d' \<le> geodesic (end_location t) u"
      by blast
    from True r have "closest_loop geodesic u (x # xs) (Some s, Fin d) = (Some s', Fin d')"
      by simp
    moreover from m have "s' = s \<or> s' \<in> set (x # xs)" by auto
    moreover from le True have "d' \<le> d" by simp
    moreover from le al have "\<forall>t\<in>set (x # xs). d' \<le> geodesic (end_location t) u" by simp
    ultimately show ?thesis using e by blast
  next
    case False
    from Cons.IH [OF Cons.prems]
    obtain s' d' where r: "closest_loop geodesic u xs (Some s, Fin d) = (Some s', Fin d')"
      and m: "s' = s \<or> s' \<in> set xs" and e: "d' = geodesic (end_location s') u"
      and le: "d' \<le> d" and al: "\<forall>t\<in>set xs. d' \<le> geodesic (end_location t) u"
      by blast
    from False r have "closest_loop geodesic u (x # xs) (Some s, Fin d) = (Some s', Fin d')"
      by simp
    moreover from m have "s' = s \<or> s' \<in> set (x # xs)" by auto
    moreover from le False al have "\<forall>t\<in>set (x # xs). d' \<le> geodesic (end_location t) u" by simp
    ultimately show ?thesis using e le by blast
  qed
qed

text \<open>
  Claim C10. For the empty list \<^verbatim>\<open>get_closest_step\<close> returns \<^verbatim>\<open>None\<close> with plus infinity.
  For every non-empty list it returns a step \<open>s\<close> of the list together with the distance
  \<open>d\<close> between the current location and the end of \<open>s\<close>, and \<open>d\<close> is at most the distance
  to the end of every step of the list. The library distance is any real-valued function.
\<close>

theorem get_closest_step_nearest:
  "get_closest_step geodesic current_location [] = (None, PInf) \<and>
   (ss \<noteq> [] \<longrightarrow>
      (\<exists>s d. get_closest_step geodesic current_location ss = (Some s, Fin d) \<and>
         s \<in> set ss \<and> d = geodesic (end_location s) current_location \<and>
         (\<forall>t\<in>set ss. d \<le> geodesic (end_location t) current_location)))"
proof (intro conjI impI)
  show "get_closest_step geodesic current_location [] = (None, PInf)"
    by (simp add: get_closest_step_def)
next
  assume "ss \<noteq> []"
  then obtain x xs where st: "ss = x # xs" by (cases ss) auto
  from closest_loop_inv [of "geodesic (end_location x) current_location" geodesic x current_location xs]
  obtain s' d' where r: "closest_loop geodesic current_location xs
        (Some x, Fin (geodesic (end_location x) current_location)) = (Some s', Fin d')"
    and m: "s' = x \<or> s' \<in> set xs" and e: "d' = geodesic (end_location s') current_location"
    and le: "d' \<le> geodesic (end_location x) current_location"
    and al: "\<forall>t\<in>set xs. d' \<le> geodesic (end_location t) current_location"
    by blast
  from r have "get_closest_step geodesic current_location ss = (Some s', Fin d')"
    by (simp add: get_closest_step_def st)
  moreover from m have "s' \<in> set ss" by (auto simp: st)
  moreover from le al have "\<forall>t\<in>set ss. d' \<le> geodesic (end_location t) current_location"
    by (simp add: st)
  ultimately show "\<exists>s d. get_closest_step geodesic current_location ss = (Some s, Fin d) \<and>
         s \<in> set ss \<and> d = geodesic (end_location s) current_location \<and>
         (\<forall>t\<in>set ss. d \<le> geodesic (end_location t) current_location)"
    using e by blast
qed

theorem get_closest_step_nearest_witness:
  "[step_a, step_b] \<noteq> [] \<and>
   (\<exists>s d. get_closest_step coarse_distance (40.71, - 73.83) [step_a, step_b] = (Some s, Fin d) \<and>
      s \<in> set [step_a, step_b] \<and> d = coarse_distance (end_location s) (40.71, - 73.83) \<and>
      (\<forall>t\<in>set [step_a, step_b]. d \<le> coarse_distance (end_location t) (40.71, - 73.83)))"
  using get_closest_step_nearest [of coarse_distance "(40.71, - 73.83)" "[step_a, step_b]"]
  by simp

section \<open>The step index\<close>

text \<open>
  In the phone variant the loop runs while \<^verbatim>\<open>step_idx < len(steps)\<close>: a tick started
  below the length of the route ends at most at the length, and the loop is left as soon
  as the index equals the length.
\<close>

lemma call_tick_index_bound:
  assumes "step_idx st < length (steps st)"
    and "call_tick eps st loc reroute = Inr (evs, Running st')"
  shows "step_idx st' \<le> length (steps st')"
  using assms
  by (auto simp: call_tick_def Let_def split: list.splits sum.splits option.splits if_splits)

lemma call_loop_index_bound:
  assumes "step_idx st \<le> length (steps st)"
    and "call_loop eps st inputs = Inr (evs, fl)"
  shows "case fl of Running st' \<Rightarrow> step_idx st' < length (steps st')
         | Finished st' \<Rightarrow> step_idx st' = length (steps st')
         | Returned \<Rightarrow> True"
  using assms
proof (induction inputs arbitrary: st evs)
  case Nil
  then show ?case by (auto simp: call_loop.simps split: if_splits)
next
  case (Cons inp rest)
  show ?case
  proof (cases "step_idx st < length (steps st)")
    case False
    with Cons.prems show ?thesis by (auto simp: call_loop.simps)
  next
    case True
    obtain loc rr where inp: "inp = (loc, rr)" by (cases inp)
    from Cons.prems(2) True inp obtain evs1 fl1 where
      t: "call_tick eps st loc rr = Inr (evs1, fl1)"
      by (auto simp: call_loop.simps split: sum.splits)
    show ?thesis
    proof (cases fl1)
      case (Running st1)
      with t True have b: "step_idx st1 \<le> length (steps st1)"
        by (auto dest: call_tick_index_bound)
      from Cons.prems(2) True inp t Running obtain evs2 where
        "call_loop eps st1 rest = Inr (evs2, fl)"
        by (auto simp: call_loop.simps [of eps st] split: sum.splits)
      with Cons.IH [OF b] show ?thesis by blast
    next
      case (Finished st1)
      with t show ?thesis
        by (auto simp: call_tick_def Let_def split: list.splits sum.splits option.splits if_splits)
    next
      case Returned
      with Cons.prems(2) True inp t show ?thesis
        by (auto simp: call_loop.simps [of eps st])
    qed
  qed
qed

text \<open>
  Claim C3 says that the index stays between 0 and the length of the installed route and
  that no tick increments it beyond the length. The loop of the laptop variant runs while
  \<^verbatim>\<open>step_idx <= len(steps)\<close>, one tick further than the loop of the phone variant. On
  the route of steps A and B, with samples at the end of B, at the end of A and at the
  end of B again, the index is incremented on each of the three ticks; the tick started
  at index 2, the length of the route, takes it to 3, and only then is the loop left.
\<close>

theorem main_loop_index_overrun:
  "main_start (Some [step_a, step_b]) =
     Inr ([DisplaySteps [step_a, step_b], CurrentStep ''Walk to A'' ''0.7 mi''],
          Running \<lparr>main_steps = Some [step_a, step_b], main_step_idx = 0, prev_step = Some step_a\<rparr>) \<and>
   main_loop coarse_distance
     \<lparr>main_steps = Some [step_a, step_b], main_step_idx = 0, prev_step = Some step_a\<rparr>
     [((40.71, - 73.83), None), ((40.70, - 73.83), None), ((40.71, - 73.83), None)] =
     Inr ([CurrentStep ''Walk to B'' ''0.7 mi'', CurrentStep ''Walk to A'' ''0.7 mi'',
           CurrentStep ''Walk to B'' ''0.7 mi''],
          Finished \<lparr>main_steps = Some [step_a, step_b], main_step_idx = 3, prev_step = Some step_b\<rparr>) \<and>
   \<not> (3::nat) \<le> length [step_a, step_b]"
  by (simp add: main_start_def main_loop.simps main_tick_def get_closest_step_def
        coarse_distance_def step_a_def step_b_def)

section \<open>Properties of fetching directions\<close>

text \<open>
  The laptop variant returns \<^verbatim>\<open>None\<close> exactly for a response that is not HTTP 200 with
  status OK, and the steps of the first leg of the first route otherwise. The phone
  variant returns a route for no response at all.
\<close>

lemma get_directions_none_iff:
  "get_directions resp = Inr None \<longleftrightarrow> status_code resp \<noteq> 200 \<or> payload_status resp \<noteq> ''OK''"
  by (simp add: get_directions_def split: list.splits)

lemma get_directions_ok:
  assumes "status_code resp = 200" and "payload_status resp = ''OK''"
    and "routes resp = (leg # legs) # rest"
  shows "get_directions resp = Inr (Some leg)"
  using assms by (simp add: get_directions_def)

lemma GPS_Navigator_get_directions_no_route:
  "GPS_Navigator_get_directions current_heading resp \<noteq> Inr (Some ss)"
  by (simp add: GPS_Navigator_get_directions_def split: list.splits sum.splits)

text \<open>
  Claim C2 says that \<^verbatim>\<open>get_directions\<close> returns \<^verbatim>\<open>None\<close> exactly when the upstream call
  fails and the sequence of steps whenever the provider answers HTTP 200 with status OK.
  For such an answer carrying the steps A and B the phone variant evaluates to \<^verbatim>\<open>None\<close>,
  since its success path ends without a \<^verbatim>\<open>return\<close>; the laptop variant returns the two
  steps.
\<close>

theorem phone_get_directions_returns_none:
  "status_code \<lparr>status_code = 200, payload_status = ''OK'', routes = [[[step_a, step_b]]]\<rparr> = 200 \<and>
   payload_status \<lparr>status_code = 200, payload_status = ''OK'', routes = [[[step_a, step_b]]]\<rparr> = ''OK'' \<and>
   GPS_Navigator_get_directions 0
     \<lparr>status_code = 200, payload_status = ''OK'', routes = [[[step_a, step_b]]]\<rparr> = Inr None \<and>
   get_directions
     \<lparr>status_code = 200, payload_status = ''OK'', routes = [[[step_a, step_b]]]\<rparr> =
     Inr (Some [step_a, step_b])"
  by (simp add: GPS_Navigator_get_directions_def get_directions_def rewrite_instruction_def
        cardinal_order_def rewrite_token_def step_a_def step_b_def)

text \<open>
  Claim C6 as stated: a payload with zero steps makes route construction fail and never
  yields a route. For an answer with HTTP 200, status OK and a first leg without steps
  the laptop variant returns the empty list of steps, not a failure.
\<close>

theorem zero_step_payload_counterexample:
  "get_directions \<lparr>status_code = 200, payload_status = ''OK'', routes = [[[]]]\<rparr> = Inr (Some [])"
  by (simp add: get_directions_def)

text \<open>
  Claim C6, amended. For every answer with HTTP 200 and status OK whose first leg has zero
  steps, \<^verbatim>\<open>get_directions\<close> of the laptop variant returns the empty list of steps; no
  check for an empty route exists. As the first route of a session the empty list makes
  the start of \<^verbatim>\<open>main\<close> raise \<^verbatim>\<open>IndexError\<close> at \<^verbatim>\<open>steps[0]\<close>; returned by the
  recomputation of an off-route tick it is installed as the current route.
\<close>

theorem zero_step_route_not_rejected:
  assumes "status_code resp = 200" and "payload_status resp = ''OK''"
    and "routes resp = ([] # legs) # rest"
  shows "get_directions resp = Inr (Some []) \<and>
         main_start (Some []) = Inl IndexError \<and>
         (\<not> float_below (snd (get_closest_step geodesic loc ss)) 50 \<longrightarrow>
            (\<exists>evs st'. main_tick geodesic st ss loc (Some []) = Inr (evs, st') \<and>
                       main_steps st' = Some []))"
  using assms
  by (auto simp: get_directions_def main_start_def main_tick_def split: prod.splits)

theorem zero_step_route_not_rejected_witness:
  "status_code \<lparr>status_code = 200, payload_status = ''OK'', routes = [[[]]]\<rparr> = 200 \<and>
   payload_status \<lparr>status_code = 200, payload_status = ''OK'', routes = [[[]]]\<rparr> = ''OK'' \<and>
   routes \<lparr>status_code = 200, payload_status = ''OK'', routes = [[[]]]\<rparr> = ([] # []) # [] \<and>
   \<not> float_below (snd (get_closest_step coarse_distance (40.68, - 73.83) [step_a, step_b])) 50 \<and>
   (\<exists>evs st'. main_tick coarse_distance
        \<lparr>main_steps = Some [step_a, step_b], main_step_idx = 0, prev_step = Some step_a\<rparr>
        [step_a, step_b] (40.68, - 73.83) (Some []) = Inr (evs, st') \<and> main_steps st' = Some [])"
proof -
  have far: "\<not> float_below (snd (get_closest_step coarse_distance (40.68, - 73.83) [step_a, step_b])) 50"
    by (simp add: get_closest_step_def coarse_distance_def step_a_def step_b_def)
  from zero_step_route_not_rejected [of "\<lparr>status_code = 200, payload_status = ''OK'', routes = [[[]]]\<rparr>"
      "[]" "[]" coarse_distance "(40.68, - 73.83)" "[step_a, step_b]"
      "\<lparr>main_steps = Some [step_a, step_b], main_step_idx = 0, prev_step = Some step_a\<rparr>"] far
  show ?thesis by simp
qed

section \<open>Properties of the instruction rewriting\<close>

text \<open>
  Claim C9 as stated: no cardinal name is a substring of another, so that every
  application order of the eight replacements gives the same text. The name \<^verbatim>\<open>north\<close> is
  a substring of \<^verbatim>\<open>northeast\<close>, and on the instruction \<^verbatim>\<open>Head northeast\<close> with heading 0
  the order of the code gives \<^verbatim>\<open>Head right\<close> while the reversed order gives
  \<^verbatim>\<open>Head rightright\<close>.
\<close>

theorem cardinal_names_overlap_counterexample:
  "contains ''north'' ''northeast'' \<and>
   rewrite_in_order cardinal_order 0 ''Head northeast'' = Inr ''Head right'' \<and>
   rewrite_in_order (rev cardinal_order) 0 ''Head northeast'' = Inr ''Head rightright''"
  by (simp add: cardinal_order_def rewrite_token_def turn_at_heading_0)

text \<open>
  Claim C9, amended. The simple names are substrings of the compound names, so the
  result depends on the order of the replacements; the rewrite pass applies them in the
  fixed order northeast, northwest, southeast, southwest, east, west, north, south, in
  which no name is a substring of a name applied after it.
\<close>

theorem cardinal_order_compound_first:
  assumes "i < j" and "j < length cardinal_order"
  shows "\<not> contains (cardinal_order ! i) (cardinal_order ! j)"
proof -
  have "\<forall>j<length cardinal_order. \<forall>i<j. \<not> contains (cardinal_order ! i) (cardinal_order ! j)"
    by code_simp
  with assms show ?thesis by blast
qed

theorem cardinal_order_compound_first_witness:
  "(4::nat) < 6 \<and> 6 < length cardinal_order \<and> \<not> contains ''east'' ''north''"
  using cardinal_order_compound_first [of 4 6] by (simp add: cardinal_order_def)

end
